theory Spec2Isabelle
  imports Main "HOL-Library.Sublist"
begin

section \<open>Text, lines and paths\<close>

text \<open>
  Python text is modelled as \<^typ>\<open>string\<close>, one \<^typ>\<open>char\<close> per code point below 256.
  A file is its decoded text (after the newline translation of text mode), so the only
  line terminator is the newline character.  A path is the string that pathlib prints
  for it (normalised, components separated by a slash).
\<close>

type_synonym path = string

text \<open>\<^verbatim>\<open>str.isspace\<close> on the code points below 256.\<close>

definition isspace :: "char \<Rightarrow> bool" where
  "isspace c = ((of_char c :: nat) \<in> {9, 10, 11, 12, 13, 28, 29, 30, 31, 32, 133, 160})"

text \<open>\<^verbatim>\<open>str.strip()\<close>: whitespace removed at both ends.\<close>

definition strip :: "string \<Rightarrow> string" where
  "strip s = rev (dropWhile isspace (rev (dropWhile isspace s)))"

text \<open>\<^verbatim>\<open>str.lower()\<close>, on the ASCII letters.\<close>

definition lower_char :: "char \<Rightarrow> char" where
  "lower_char c =
     (let n = (of_char c :: nat) in if 65 \<le> n \<and> n \<le> 90 then char_of (n + 32) else c)"

definition lower :: "string \<Rightarrow> string" where
  "lower s = map lower_char s"

text \<open>\<^verbatim>\<open>str.find(sub)\<close>: the lowest index at which \<open>sub\<close> occurs, or \<open>-1\<close>.\<close>

fun str_find :: "string \<Rightarrow> string \<Rightarrow> int" where
  "str_find [] sub = (if sub = [] then 0 else - 1)"
| "str_find (c # cs) sub =
     (if prefix sub (c # cs) then 0
      else (let r = str_find cs sub in if r < 0 then - 1 else r + 1))"

text \<open>\<^verbatim>\<open>str.rfind\<close> of a single character: the highest index, if any.\<close>

fun rfind_char :: "string \<Rightarrow> char \<Rightarrow> nat option" where
  "rfind_char [] c = None"
| "rfind_char (x # xs) c =
     (case rfind_char xs c of
        Some i \<Rightarrow> Some (Suc i)
      | None \<Rightarrow> if x = c then Some 0 else None)"

text \<open>\<^verbatim>\<open>sep.join(parts)\<close>.\<close>

fun join :: "string \<Rightarrow> string list \<Rightarrow> string" where
  "join sep [] = []"
| "join sep [x] = x"
| "join sep (x # y # ys) = x @ sep @ join sep (y # ys)"

text \<open>
  \<^verbatim>\<open>file.readline()\<close> on the unread text: the next line with its newline (the last line
  of a file may lack one; at the end of the file the line is empty), and the text that
  stays unread.
\<close>

fun readline :: "string \<Rightarrow> string \<times> string" where
  "readline [] = ([], [])"
| "readline (c # cs) =
     (if c = CHR 0x0A then ([c], cs)
      else (let (l, r) = readline cs in (c # l, r)))"

text \<open>\<^verbatim>\<open>file.readlines()\<close>, also the lines that iterating over a file gives.\<close>

fun readlines :: "string \<Rightarrow> string list" where
  "readlines [] = []"
| "readlines (c # cs) =
     (if c = CHR 0x0A then [c] # readlines cs
      else (case readlines cs of [] \<Rightarrow> [[c]] | l # ls \<Rightarrow> (c # l) # ls))"

text \<open>\<^verbatim>\<open>Path.name\<close>: the final component.\<close>

definition path_name :: "path \<Rightarrow> string" where
  "path_name p = rev (takeWhile (\<lambda>c. c \<noteq> CHR ''/'') (rev p))"

text \<open>
  \<^verbatim>\<open>Path.suffix\<close> and \<^verbatim>\<open>Path.stem\<close> (pathlib of Python 3.7): the name is cut at its last
  dot, unless that dot is the first or the last character of the name.
\<close>

definition path_suffix :: "path \<Rightarrow> string" where
  "path_suffix p =
     (let name = path_name p in
      case rfind_char name CHR ''.'' of
        None \<Rightarrow> []
      | Some i \<Rightarrow> if 0 < i \<and> int i < int (length name) - 1 then drop i name else [])"

definition path_stem :: "path \<Rightarrow> string" where
  "path_stem p =
     (let name = path_name p in
      case rfind_char name CHR ''.'' of
        None \<Rightarrow> name
      | Some i \<Rightarrow> if 0 < i \<and> int i < int (length name) - 1 then take i name else name)"

text \<open>Decimal rendering of a count, as an f-string prints it.\<close>

fun digits :: "nat \<Rightarrow> nat \<Rightarrow> string" where
  "digits 0 n = []"
| "digits (Suc fuel) n =
     (if n < 10 then [char_of (48 + n)]
      else digits fuel (n div 10) @ [char_of (48 + n mod 10)])"

definition str_nat :: "nat \<Rightarrow> string" where
  "str_nat n = digits (Suc n) n"

text \<open>The format \<^verbatim>\<open>{n:>2}\<close>: right-aligned in a field of width two.\<close>

definition str_nat_w2 :: "nat \<Rightarrow> string" where
  "str_nat_w2 n = replicate (2 - length (str_nat n)) CHR '' '' @ str_nat n"


section \<open>Exceptions and generators\<close>

datatype error =
    ValueError string
  | UnboundLocalError string
  | AttributeError string
  | TypeError string
  | RuntimeError string
  | OSError path
  | EOFError

text \<open>
  A generator is modelled by the sequence of what its consumer observes, in order: the
  items it yields, ended either by nothing (the generator returns) or by the exception
  that it raises when asked for the next item.
\<close>

datatype 'a event = Yield 'a | Raise error


section \<open>The environment\<close>

text \<open>
  What the script obtains from outside: the results of \<^verbatim>\<open>Path.glob\<close> under a directory,
  \<^verbatim>\<open>difflib.context_diff\<close>, the name that \<^verbatim>\<open>NamedTemporaryFile\<close> picks for a prefix
  and a suffix, and the output of \<^verbatim>\<open>git ls-files -z\<close>.
\<close>

record env =
  glob :: "path \<Rightarrow> string \<Rightarrow> path list"
  context_diff :: "string list \<Rightarrow> string list \<Rightarrow> string \<Rightarrow> string \<Rightarrow> string list"
  mkstemp :: "string \<Rightarrow> string \<Rightarrow> path"
  git_ls :: string

text \<open>
  The state that the script reads and changes: the text of each readable file, the
  directories, the lines still to be typed by the user, and what has been written to
  standard output.
\<close>

record world =
  files :: "path \<rightharpoonup> string"
  dirs :: "path set"
  stdin :: "string list"
  stdout :: "string list"


section \<open>The glob matcher\<close>

fun glob_each :: "env \<Rightarrow> path \<Rightarrow> string list \<Rightarrow> path event list" where
  "glob_each E path [] = []"
| "glob_each E path (pattern # patterns) =
     (let matches = glob E path pattern in
      map Yield matches @
      (if length matches = 0 then
         [Raise (ValueError (''Failed, no match for \"'' @ pattern @ ''\".''))]
       else if length matches = 1 then
         [Raise (ValueError (''Failed, only one match for \"'' @ pattern @ ''\": '' @
                  matches ! 0 @ ''.''))]
       else glob_each E path patterns))"


section \<open>The rule table\<close>

definition java_kt :: "string list \<Rightarrow> string list" where
  "java_kt stubs =
     concat (map (\<lambda>stub. map (\<lambda>extension. ''**/'' @ stub @ ''.'' @ extension)
                                [''java'', ''kt'']) stubs)"

definition simplePatterns :: "string list" where
  "simplePatterns =
     [''nuffin'', ''samers*'',
      ''**/proguard-rules.pro'', ''**/buildBase.gradle'',
      ''**/downloadClient.gradle'', ''**/integrateClient.gradle'',
      ''**/downloadFramework.gradle'', ''**/integrateFramework.gradle''] @
     java_kt [''AirWatchSDKIntentService'', ''BaseActivity'', ''Application'',
              ''AWApplication'', ''BrandingManager'', ''BitmapBrandingManager''] @
     [''base*/build.gradle'', ''client*/build.gradle'',
      ''brandDynamicDelegate*/build.gradle'',
      ''brandDynamicExtend*/build.gradle'',
      ''brandEnterprise*Delegate*/**/build.gradle'',
      ''brandEnterprise*Extend*/**/build.gradle'',
      ''brandStatic*/**/styles.xml'', ''brandDynamic*/**/strings.xml'',
      ''base*/**/main/AndroidManifest.xml'',
      ''client*/**/main/AndroidManifest.xml'',
      ''brandDynamic*Java/**/MainActivity.java'',
      ''brandDynamic*Kotlin/**/MainActivity.kt'']"

definition namedPatternLists :: "(string \<times> string list) list" where
  "namedPatternLists =
     [(''unbranded styles.xml files'',
         [''base*/**/styles.xml'', ''client*/**/styles.xml'', ''framework*/**/styles.xml'']),
      (''unbranded strings.xml files'',
         [''base*/**/strings.xml'', ''client*/**/strings.xml'',
          ''framework*/**/strings.xml'', ''brandEnterpriseOnly*/**/strings.xml'']),
      (''application branded strings.xml files'',
         [''brandStatic*/**/strings.xml'', ''brandEnterprisePriority*/**/strings.xml'']),
      (''framework manifests'',
         [''framework*/**/main/AndroidManifest.xml'', ''brand*/**/main/AndroidManifest.xml'']),
      (''framework build.gradle files'',
         [''frameworkExtend*/**/build.gradle'', ''brandStaticExtend*/**/build.gradle'']),
      (''base MainActivity.java files'',
         [''framework*/**/MainActivity.java'', ''brandEnterprise*/**/MainActivity.java'',
          ''brandStatic*/**/MainActivity.java'']),
      (''base MainActivity.kt files'',
         [''framework*/**/MainActivity.kt'', ''brandEnterprise*/**/MainActivity.kt'',
          ''brandStatic*/**/MainActivity.kt''])]"

definition named_lists :: "(string \<times> string list) list" where
  "named_lists =
     map (\<lambda>simplePattern. (''\"'' @ simplePattern @ ''\"'', [simplePattern])) simplePatterns @
     namedPatternLists"

definition named_globs :: "env \<Rightarrow> path \<Rightarrow> (string \<times> path event list) list" where
  "named_globs E topPath =
     map (\<lambda>(description, patterns). (description, glob_each E topPath patterns)) named_lists"

text \<open>The first rule, in table order, one of whose patterns resolves to the target.\<close>

definition patterns_matched_by :: "env \<Rightarrow> path \<Rightarrow> path \<Rightarrow> (string \<times> string list) list" where
  "patterns_matched_by E topPath targetPath =
     (case List.find
             (\<lambda>(description, patterns).
                list_ex (\<lambda>pattern. list_ex (\<lambda>path. path = targetPath) (glob E topPath pattern))
                        patterns)
             named_lists of
        None \<Rightarrow> []
      | Some rule \<Rightarrow> [rule])"


section \<open>The diff engine\<close>

type_synonym diff_result = "path \<times> path \<times> string list option"

text \<open>
  The body of the loop of \<^verbatim>\<open>diff_each\<close> for one path: the file is read; the first path
  becomes the baseline when none was supplied; a path equal to the baseline is skipped;
  any other path gives a tuple, whose diff is absent when \<^verbatim>\<open>context_diff\<close> gives no line.
  The result is the baseline afterwards and the tuple yielded, if any.
\<close>

definition diff_each_body ::
  "env \<Rightarrow> (path \<rightharpoonup> string) \<Rightarrow> (path \<times> string list) option \<Rightarrow> path \<Rightarrow>
     error + ((path \<times> string list) option \<times> diff_result option)" where
  "diff_each_body E fs left path =
     (case fs path of
        None \<Rightarrow> Inl (OSError path)
      | Some text \<Rightarrow>
          (let lines = readlines text in
           case left of
             None \<Rightarrow> Inr (Some (path, lines), None)
           | Some (pathLeft, linesLeft) \<Rightarrow>
               if path = pathLeft then Inr (left, None)
               else
                 (let differences = context_diff E linesLeft lines pathLeft path in
                  Inr (left,
                       Some (pathLeft, path,
                             if length differences > 0 then Some differences else None)))))"

fun diff_each_loop ::
  "env \<Rightarrow> (path \<rightharpoonup> string) \<Rightarrow> (path \<times> string list) option \<Rightarrow> path event list \<Rightarrow>
     diff_result event list" where
  "diff_each_loop E fs left [] = []"
| "diff_each_loop E fs left (Raise e # paths) = [Raise e]"
| "diff_each_loop E fs left (Yield path # paths) =
     (case diff_each_body E fs left path of
        Inl e \<Rightarrow> [Raise e]
      | Inr (left', None) \<Rightarrow> diff_each_loop E fs left' paths
      | Inr (left', Some result) \<Rightarrow> Yield result # diff_each_loop E fs left' paths)"

text \<open>The lines of an explicitly supplied baseline are read before the first path.\<close>

definition diff_each_start ::
  "(path \<rightharpoonup> string) \<Rightarrow> path option \<Rightarrow> error + (path \<times> string list) option" where
  "diff_each_start fs pathLeft =
     (case pathLeft of
        None \<Rightarrow> Inr None
      | Some p \<Rightarrow>
          (case fs p of
             None \<Rightarrow> Inl (OSError p)
           | Some text \<Rightarrow> Inr (Some (p, readlines text))))"

definition diff_each ::
  "env \<Rightarrow> (path \<rightharpoonup> string) \<Rightarrow> path event list \<Rightarrow> path option \<Rightarrow> diff_result event list" where
  "diff_each E fs paths pathLeft =
     (case diff_each_start fs pathLeft of
        Inl e \<Rightarrow> [Raise e]
      | Inr left \<Rightarrow> diff_each_loop E fs left paths)"


section \<open>The notice editor\<close>

definition leader_suffixes_map :: "(string \<times> string list) list" where
  "leader_suffixes_map =
     [(''#'', [''.gitignore'', ''.pro'', ''.properties'', ''.py'']),
      (''//'', [''.gradle'', ''.java'', ''.kt''])]"

definition exempt_suffixes :: "string list" where
  "exempt_suffixes = [''.png'']"

definition custom_suffixes_map :: "(string \<times> string) list" where
  "custom_suffixes_map = [(''.xml'', ''xml_editor'')]"

record notices_editor =
  noticesPath :: path
  noticesLines :: "string list"
  noticesXML :: string

definition NoticesEditor_init :: "world \<Rightarrow> path \<Rightarrow> error + notices_editor" where
  "NoticesEditor_init W p =
     (case files W p of
        None \<Rightarrow> Inl (OSError p)
      | Some text \<Rightarrow>
          (let ls = map strip (readlines text) in
           Inr \<lparr>noticesPath = p, noticesLines = ls,
                noticesXML =
                  join ''\<newline>'' ([''<!--''] @ map (\<lambda>line. ''    '' @ line) ls @
                                   [''-->\<newline>''])\<rparr>))"

definition effective_suffix :: "path \<Rightarrow> string" where
  "effective_suffix p =
     (if path_suffix p = [] \<and> prefix ''.'' (path_name p) then path_name p
      else path_suffix p)"

text \<open>
  The loop of \<^verbatim>\<open>check\<close> over the lines of the file.  Reading the notice line at index
  \<open>linesFound\<close> raises IndexError exactly when \<open>linesFound\<close> is not below the number of
  notice lines (the index is never negative); the handler returns found.
\<close>

fun check_lines :: "string list \<Rightarrow> nat \<Rightarrow> string list \<Rightarrow> bool \<times> nat" where
  "check_lines notices linesFound [] = (False, linesFound)"
| "check_lines notices linesFound (line # rest) =
     (if linesFound < length notices then
        (if 0 \<le> str_find line (notices ! linesFound)
         then check_lines notices (linesFound + 1) rest
         else check_lines notices linesFound rest)
      else (True, linesFound))"

definition check :: "world \<Rightarrow> notices_editor \<Rightarrow> path \<Rightarrow> error + (bool \<times> nat option)" where
  "check W N p =
     (let sfx = effective_suffix p in
      if sfx \<in> set exempt_suffixes then Inr (True, None)
      else
        (case files W p of
           None \<Rightarrow> Inl (OSError p)
         | Some text \<Rightarrow>
             (let (ok, linesFound) = check_lines (noticesLines N) 0 (readlines text)
              in Inr (ok, Some linesFound))))"

text \<open>The editors map the text of the original file to the text written to the edited file.\<close>

definition leader_editor :: "string \<Rightarrow> string list \<Rightarrow> string \<Rightarrow> string" where
  "leader_editor commentLead notices original =
     concat (map (\<lambda>line. commentLead @ '' '' @ line @ ''\<newline>'') notices) @
     concat (map (\<lambda>(index, line).
                    (if index = (0::nat) \<and> strip line \<noteq> [] then ''\<newline>'' else []) @ line)
                 (enumerate 0 (readlines original)))"

definition xml_editor :: "string \<Rightarrow> string \<Rightarrow> string" where
  "xml_editor xml original =
     (let (line, rest) = readline original in
      (if prefix ''<?xml'' line then line @ xml else xml @ line) @
      concat (readlines rest))"

definition editor_differences :: "env \<Rightarrow> world \<Rightarrow> path \<Rightarrow> path \<Rightarrow> error + string list" where
  "editor_differences E W originalPath editedPath =
     (case files W originalPath of
        None \<Rightarrow> Inl (OSError originalPath)
      | Some original \<Rightarrow>
          (case files W editedPath of
             None \<Rightarrow> Inl (OSError editedPath)
           | Some edited \<Rightarrow>
               Inr (context_diff E (readlines original) (readlines edited)
                      originalPath ''Edited'')))"

text \<open>
  The leader that the loop over the leader table binds: the key of the first entry whose
  list holds the suffix.  When no entry does, \<^verbatim>\<open>commentLead\<close> stays unbound.
\<close>

definition find_leader :: "string \<Rightarrow> string option" where
  "find_leader sfx =
     map_option fst (List.find (\<lambda>(key, suffixList). sfx \<in> set suffixList) leader_suffixes_map)"

text \<open>
  The custom editor of a suffix: the bound method that \<^verbatim>\<open>getattr\<close> finds under the name
  that the table of custom editors gives; a suffix missing from the table (KeyError) has
  none.
\<close>

definition getattr_editor :: "string \<Rightarrow> error + (notices_editor \<Rightarrow> string \<Rightarrow> string)" where
  "getattr_editor name =
     (if name = ''xml_editor'' then Inr (\<lambda>N. xml_editor (noticesXML N))
      else Inl (AttributeError name))"

definition custom_editor ::
  "string \<Rightarrow> error + (notices_editor \<Rightarrow> string \<Rightarrow> string) option" where
  "custom_editor sfx =
     (case map_of custom_suffixes_map sfx of
        None \<Rightarrow> Inr None
      | Some customEditorName \<Rightarrow>
          (case getattr_editor customEditorName of
             Inl e \<Rightarrow> Inl e
           | Inr customEditor \<Rightarrow> Inr (Some customEditor)))"

text \<open>
  The text written to the edited file.  Without a custom editor the leader editor is
  called with \<^verbatim>\<open>commentLead\<close>, and reading that name raises when it is unbound.
\<close>

definition edit_text ::
  "notices_editor \<Rightarrow> (notices_editor \<Rightarrow> string \<Rightarrow> string) option \<Rightarrow> string option \<Rightarrow>
     string \<Rightarrow> error + string" where
  "edit_text N customEditor commentLead original =
     (case customEditor of
        None \<Rightarrow>
          (case commentLead of
             None \<Rightarrow> Inl (UnboundLocalError ''commentLead'')
           | Some lead \<Rightarrow> Inr (leader_editor lead (noticesLines N) original))
      | Some editor \<Rightarrow> Inr (editor N original))"

text \<open>
  \<^verbatim>\<open>insert\<close>: the editor and the leader are looked up, the temporary file is created,
  the original is opened, the editor writes the edited text; the result is the path of
  the edited file and its diff against the original.
\<close>

definition insert_notices ::
  "env \<Rightarrow> notices_editor \<Rightarrow> path \<Rightarrow> world \<Rightarrow> (error + path \<times> string list) \<times> world" where
  "insert_notices E N originalPath W =
     (let sfx = effective_suffix originalPath in
      case custom_editor sfx of
        Inl e \<Rightarrow> (Inl e, W)
      | Inr customEditor \<Rightarrow>
          (let commentLead = find_leader sfx;
               editedPath = mkstemp E (path_stem originalPath @ ''_'') (path_suffix originalPath);
               W1 = W\<lparr>files := (files W)(editedPath \<mapsto> [])\<rparr>
           in case files W1 originalPath of
                None \<Rightarrow> (Inl (OSError originalPath), W1)
              | Some original \<Rightarrow>
                  (case edit_text N customEditor commentLead original of
                     Inl e \<Rightarrow> (Inl e, W1)
                   | Inr edited \<Rightarrow>
                       (let W2 = W1\<lparr>files := (files W1)(editedPath \<mapsto> edited)\<rparr> in
                        case editor_differences E W2 originalPath editedPath of
                          Inl e \<Rightarrow> (Inl e, W2)
                        | Inr differences \<Rightarrow> (Inr (editedPath, differences), W2)))))"


section \<open>The job orchestrator\<close>

record job =
  counting :: bool
  insertNotices :: bool
  notices :: path
  originals :: "string list"
  top :: path
  verbose :: bool
  yes :: bool

definition print :: "string \<Rightarrow> world \<Rightarrow> world" where
  "print s W = W\<lparr>stdout := stdout W @ [s @ ''\<newline>'']\<rparr>"

definition write_report :: "string list \<Rightarrow> world \<Rightarrow> world" where
  "write_report texts W = W\<lparr>stdout := stdout W @ texts\<rparr>"

text \<open>
  The prompt loop of \<^verbatim>\<open>_ask_overwrite\<close> when answers are read: each round shows the
  prompt and reads one line, which raises EOFError when the input has ended.  The result
  is whether to overwrite, with the input left and the output so far.
\<close>

fun prompt_loop ::
  "string list \<Rightarrow> string list \<Rightarrow> string list \<Rightarrow> (error + bool) \<times> string list \<times> string list" where
  "prompt_loop differences [] out = (Inl EOFError, [], out @ [''    Overwrite? (Y/n/?)''])"
| "prompt_loop differences (typed # rest) out =
     (let response = lower typed;
          out1 = out @ [''    Overwrite? (Y/n/?)'']
      in if response = [] \<or> prefix ''y'' response then (Inr True, rest, out1)
         else if prefix ''n'' response then (Inr False, rest, out1)
         else if response = ''?'' then
           prompt_loop differences rest (out1 @ [concat differences @ ''\<newline>''])
         else
           prompt_loop differences rest
             (out1 @ [''Unrecognised \"'' @ response @ ''\". Ctrl-C to quit.\<newline>'']))"

text \<open>\<^verbatim>\<open>shutil.copy\<close> of a file over a file.\<close>

definition copy_file :: "path \<Rightarrow> path \<Rightarrow> world \<Rightarrow> (error + unit) \<times> world" where
  "copy_file pathSource pathDestination W =
     (case files W pathSource of
        None \<Rightarrow> (Inl (OSError pathSource), W)
      | Some text \<Rightarrow> (Inr (), W\<lparr>files := (files W)(pathDestination \<mapsto> text)\<rparr>))"

text \<open>
  \<^verbatim>\<open>_ask_overwrite\<close>: nothing is asked for an absent diff (the result is Python's None);
  otherwise the answer is yes at once under the flag \<^verbatim>\<open>yes\<close>, or is read from the user.
\<close>

definition ask_overwrite ::
  "job \<Rightarrow> path \<Rightarrow> path \<Rightarrow> string list option \<Rightarrow> world \<Rightarrow> (error + bool option) \<times> world" where
  "ask_overwrite J pathSource pathDestination differences W =
     (case differences of
        None \<Rightarrow> (Inr None, print (''    Same \"'' @ pathDestination @ ''\"'') W)
      | Some diffs \<Rightarrow>
          (let W1 = print (''    Different \"'' @ pathDestination @ ''\"'') W;
               W2 = (if verbose J then print (concat diffs) W1 else W1);
               (answer, input_left, out) =
                 (if yes J then (Inr True, stdin W2, stdout W2)
                  else prompt_loop diffs (stdin W2) (stdout W2));
               W3 = W2\<lparr>stdin := input_left, stdout := out\<rparr>
           in case answer of
                Inl e \<Rightarrow> (Inl e, W3)
              | Inr True \<Rightarrow>
                  (case copy_file pathSource pathDestination (print ''Overwriting.'' W3) of
                     (Inl e, W4) \<Rightarrow> (Inl e, W4)
                   | (Inr u, W4) \<Rightarrow> (Inr (Some True), W4))
              | Inr False \<Rightarrow> (Inr (Some False), print ''Keeping'' W3)))"

text \<open>
  \<^verbatim>\<open>_notices_business\<close>.  The result is what the method returns: Python's None for a
  directory (a bare \<^verbatim>\<open>return\<close>), otherwise the number 0 or 1.
\<close>

definition notices_business ::
  "job \<Rightarrow> env \<Rightarrow> notices_editor \<Rightarrow> path \<Rightarrow> world \<Rightarrow> (error + nat option) \<times> world" where
  "notices_business J E N p W =
     (if p \<in> dirs W then (Inr None, W)
      else
        (case check W N p of
           Inl e \<Rightarrow> (Inl e, W)
         | Inr (noticeOK, linesFound) \<Rightarrow>
             if noticeOK then
               (Inr (Some 0),
                if verbose J then
                  (case linesFound of
                     None \<Rightarrow>
                       print (''No notice insertion for suffix \"'' @ path_suffix p @
                              ''\", skipping \"'' @ p @ ''\"'') W
                   | Some n \<Rightarrow> print (''Notice lines '' @ str_nat n @ '' in \"'' @ p @ ''\"'') W)
                else W)
             else
               (let W1 = (if verbose J \<or> \<not> counting J
                          then print (''No copyright notices in file \"'' @ p @ ''\"'') W
                          else W)
                in if counting J then (Inr (Some 1), W1)
                   else
                     (case insert_notices E N p W1 of
                        (Inl e, W2) \<Rightarrow> (Inl e, W2)
                      | (Inr (editedPath, differences), W2) \<Rightarrow>
                          (case ask_overwrite J editedPath p (Some differences) W2 of
                             (Inl e, W3) \<Rightarrow> (Inl e, W3)
                           | (Inr overwritten, W3) \<Rightarrow>
                               if overwritten = Some True then
                                 (case check W3 N p of
                                    Inl e \<Rightarrow> (Inl e, W3)
                                  | Inr (noticeOK2, linesFound2) \<Rightarrow>
                                      if noticeOK2 then
                                        (Inr (Some 1),
                                         if verbose J then print ''Overwritten file OK.'' W3
                                         else W3)
                                      else
                                        (Inl (RuntimeError
                                               ''Overwritten file doesn't have notices.''), W3))
                               else (Inr (Some 0), W3))))))"

text \<open>
  The loop of \<^verbatim>\<open>__call__\<close> in notice mode, over the explicit originals or over the
  tracked files: the count of files goes up, then the result of \<^verbatim>\<open>_notices_business\<close>
  is added to the count of edits, which raises TypeError when that result is None.
\<close>

fun notices_loop ::
  "job \<Rightarrow> env \<Rightarrow> notices_editor \<Rightarrow> path list \<Rightarrow> nat \<Rightarrow> nat \<Rightarrow> world \<Rightarrow>
     (error + nat \<times> nat) \<times> world" where
  "notices_loop J E N [] originalsChecked edited W = (Inr (originalsChecked, edited), W)"
| "notices_loop J E N (p # rest) originalsChecked edited W =
     (case notices_business J E N p W of
        (Inl e, W1) \<Rightarrow> (Inl e, W1)
      | (Inr None, W1) \<Rightarrow>
          (Inl (TypeError (''unsupported operand type(s) for +=: '' @ [CHR 0x27] @ ''int'' @
                          [CHR 0x27] @ '' and '' @ [CHR 0x27] @ ''NoneType'' @ [CHR 0x27])), W1)
      | (Inr (Some k), W1) \<Rightarrow> notices_loop J E N rest (originalsChecked + 1) (edited + k) W1)"

text \<open>
  \<^verbatim>\<open>git_ls_files\<close>: the output of the tracked-file lister is cut at each NUL character,
  and each name is joined to the top directory.  Characters after the last NUL are
  dropped.
\<close>

fun git_names :: "string \<Rightarrow> string \<Rightarrow> string list" where
  "git_names [] name = []"
| "git_names (readChar # unread) name =
     (if readChar = CHR 0x00 then name # git_names unread []
      else git_names unread (name @ [readChar]))"

text \<open>\<^verbatim>\<open>Path(top, name)\<close> for a relative name.\<close>

definition path_join :: "path \<Rightarrow> string \<Rightarrow> path" where
  "path_join t name =
     (if t = [] \<or> t = ''.'' then name
      else if last t = CHR ''/'' then t @ name
      else t @ ''/'' @ name)"

definition git_ls_files :: "job \<Rightarrow> env \<Rightarrow> path list" where
  "git_ls_files J E = map (path_join (top J)) (git_names (git_ls E) [])"

text \<open>
  \<^verbatim>\<open>process_original\<close>: the tuples of \<^verbatim>\<open>diff_each\<close> are consumed one at a time, and each
  may overwrite a file before the next path is read, so the loop body of \<^verbatim>\<open>diff_each\<close>
  runs on the files as they are at that moment.
\<close>

fun process_loop ::
  "job \<Rightarrow> env \<Rightarrow> (path \<times> string list) option \<Rightarrow> path event list \<Rightarrow> world \<Rightarrow>
     (error + unit) \<times> world" where
  "process_loop J E left [] W = (Inr (), W)"
| "process_loop J E left (Raise e # paths) W = (Inl e, W)"
| "process_loop J E left (Yield p # paths) W =
     (case diff_each_body E (files W) left p of
        Inl e \<Rightarrow> (Inl e, W)
      | Inr (left', None) \<Rightarrow> process_loop J E left' paths W
      | Inr (left', Some (pathLeft, p', differences)) \<Rightarrow>
          (case ask_overwrite J pathLeft p' differences W of
             (Inl e, W1) \<Rightarrow> (Inl e, W1)
           | (Inr overwritten, W1) \<Rightarrow> process_loop J E left' paths W1))"

definition process_original :: "job \<Rightarrow> env \<Rightarrow> string \<Rightarrow> world \<Rightarrow> (error + unit) \<times> world" where
  "process_original J E original W =
     (case patterns_matched_by E (top J) original of
        [] \<Rightarrow> (Inr (), print (original @ ''\<newline>No matches.'') W)
      | (description, patterns) # others \<Rightarrow>
          (let W1 = print (original @ ''\<newline>Matches '' @ description @ '':'') W in
           case diff_each_start (files W1) (Some original) of
             Inl e \<Rightarrow> (Inl e, W1)
           | Inr left \<Rightarrow> process_loop J E left (glob_each E (top J) patterns) W1))"

text \<open>
  \<^verbatim>\<open>diff_all\<close>, for one rule: the tuples of \<^verbatim>\<open>diff_each\<close> are collected into the paths
  found (None until the first tuple), the paths that differ and the lines of their diffs.
\<close>

fun diff_all_collect ::
  "diff_result event list \<Rightarrow> path list option \<Rightarrow> string list \<Rightarrow> string list \<Rightarrow>
     error + (path list option \<times> string list \<times> string list)" where
  "diff_all_collect [] pathsFound pathDifferences lineDifferences =
     Inr (pathsFound, pathDifferences, lineDifferences)"
| "diff_all_collect (Raise e # results) pathsFound pathDifferences lineDifferences = Inl e"
| "diff_all_collect (Yield (pathLeft, p, differences) # results)
       pathsFound pathDifferences lineDifferences =
     (let found = (case pathsFound of None \<Rightarrow> [pathLeft] | Some ps \<Rightarrow> ps) @ [p] in
      case differences of
        None \<Rightarrow> diff_all_collect results (Some found) pathDifferences lineDifferences
      | Some ds \<Rightarrow>
          diff_all_collect results (Some found) (pathDifferences @ [p]) (lineDifferences @ ds))"

text \<open>How a list of paths is printed inside an f-string (without the escapes of repr).\<close>

definition repr_paths :: "path list \<Rightarrow> string" where
  "repr_paths ps = ''['' @ join '', '' (map (\<lambda>p. ''PosixPath('' @ [CHR 0x27] @ p @ [CHR 0x27] @ '')'') ps) @ '']''"

text \<open>
  What \<^verbatim>\<open>diff_all\<close> writes to the report for one rule.  A ValueError from the glob matcher
  is written as the report of the rule; any other exception leaves \<^verbatim>\<open>diff_all\<close>.
\<close>

fun value_error_message :: "error \<Rightarrow> string option" where
  "value_error_message (ValueError msg) = Some msg"
| "value_error_message e = None"

definition diff_all_rule ::
  "bool \<Rightarrow> string \<Rightarrow> diff_result event list \<Rightarrow> error + string list" where
  "diff_all_rule verb description results =
     (case diff_all_collect results None [] [] of
        Inl e \<Rightarrow>
          (case value_error_message e of
             Some msg \<Rightarrow> Inr [msg, ''\<newline>'']
           | None \<Rightarrow> Inl e)
      | Inr (pathsFound, pathDifferences, lineDifferences) \<Rightarrow>
          (let pathCount = (case pathsFound of None \<Rightarrow> 0 | Some ps \<Rightarrow> length ps);
               found = (case pathsFound of None \<Rightarrow> [] | Some ps \<Rightarrow> ps) in
           if pathCount \<le> 0 then
             Inr [''Failed, no match for '' @ description @ ''.\<newline>'']
           else if pathCount < 2 then
             Inr [''Failed, only one match for '' @ description @ '': \"'' @
                  repr_paths found @ ''\"\<newline>'']
           else if length pathDifferences > 0 then
             Inr ((''Differences '' @ description @ '' \"'' @
                     hd found @ ''\"\<newline>'') #
                  (if verb then map (\<lambda>difference. ''    '' @ difference) lineDifferences
                   else map (\<lambda>difference. ''    \"'' @ difference @ ''\"\<newline>'')
                          pathDifferences))
           else
             Inr [''OK '' @ str_nat_w2 pathCount @ '' matches for '' @ description @
                  ''.\<newline>'']))"

fun diff_all_loop ::
  "job \<Rightarrow> env \<Rightarrow> (string \<times> path event list) list \<Rightarrow> world \<Rightarrow> (error + unit) \<times> world" where
  "diff_all_loop J E [] W = (Inr (), W)"
| "diff_all_loop J E ((description, paths) # rules) W =
     (case diff_all_rule (verbose J) description (diff_each E (files W) paths None) of
        Inl e \<Rightarrow> (Inl e, W)
      | Inr texts \<Rightarrow> diff_all_loop J E rules (write_report texts W))"

definition diff_all :: "job \<Rightarrow> env \<Rightarrow> world \<Rightarrow> (error + unit) \<times> world" where
  "diff_all J E W = diff_all_loop J E (named_globs E (top J)) W"

text \<open>The loop of \<^verbatim>\<open>__call__\<close> over the explicit originals in audit mode.\<close>

fun audit_loop ::
  "job \<Rightarrow> env \<Rightarrow> string list \<Rightarrow> nat \<Rightarrow> world \<Rightarrow> (error + nat) \<times> world" where
  "audit_loop J E [] originalsChecked W = (Inr originalsChecked, W)"
| "audit_loop J E (original # rest) originalsChecked W =
     (case process_original J E original W of
        (Inl e, W1) \<Rightarrow> (Inl e, W1)
      | (Inr u, W1) \<Rightarrow> audit_loop J E rest (originalsChecked + 1) W1)"

text \<open>\<^verbatim>\<open>DuplicatorJob.__call__\<close>.\<close>

definition call :: "job \<Rightarrow> env \<Rightarrow> world \<Rightarrow> (error + unit) \<times> world" where
  "call J E W =
     (if insertNotices J then
        (case NoticesEditor_init W (notices J) of
           Inl e \<Rightarrow> (Inl e, W)
         | Inr N \<Rightarrow>
             (case notices_loop J E N (originals J) 0 0 W of
                (Inl e, W1) \<Rightarrow> (Inl e, W1)
              | (Inr (checked, edited), W1) \<Rightarrow>
                  (case (if checked = 0
                         then notices_loop J E N (git_ls_files J E) checked edited W1
                         else (Inr (checked, edited), W1)) of
                     (Inl e, W2) \<Rightarrow> (Inl e, W2)
                   | (Inr (originalsChecked, edited'), W2) \<Rightarrow>
                       (Inr (),
                        print (''Checked:'' @ str_nat originalsChecked @ ''. Edited:'' @
                               str_nat edited' @ ''.'') W2))))
      else
        (case audit_loop J E (originals J) 0 W of
           (Inl e, W1) \<Rightarrow> (Inl e, W1)
         | (Inr originalsChecked, W1) \<Rightarrow>
             if originalsChecked = 0 then diff_all J E W1 else (Inr (), W1)))"


section \<open>Example inputs\<close>

definition example_env :: env where
  "example_env =
     \<lparr>glob = (\<lambda>t pattern.
                if pattern = ''a*'' then [''a1'', ''a2'']
                else if pattern = ''b*'' then [''b1'']
                else if pattern = ''c*'' then [''c1'', ''c2'', ''c3'']
                else []),
      context_diff = (\<lambda>a b fromfile tofile.
                if a = b then [] else [''*** '' @ fromfile, ''--- '' @ tofile]),
      mkstemp = (\<lambda>pre suf. ''/tmp/'' @ pre @ ''tmp'' @ suf),
      git_ls = []\<rparr>"

definition example_editor :: notices_editor where
  "example_editor =
     \<lparr>noticesPath = ''notices.txt'',
      noticesLines = [''Copyright 2020'', ''BSD-2-Clause''],
      noticesXML = ''<!--\<newline>    Copyright 2020\<newline>    BSD-2-Clause\<newline>-->\<newline>''\<rparr>"

definition example_world :: world where
  "example_world =
     \<lparr>files = map_of
        [(''notices.txt'', ''Copyright 2020\<newline>BSD-2-Clause\<newline>''),
         (''empty.py'', []),
         (''run.py'', ''# Copyright 2020\<newline># BSD-2-Clause\<newline>''),
         (''notes.txt'', ''hello\<newline>''),
         (''README.md'', ''# Samples\<newline>''),
         (''b1'', ''same\<newline>''),
         (''a1'', ''same\<newline>''), (''a2'', ''same\<newline>''),
         (''c1'', ''same\<newline>''), (''c2'', ''same\<newline>''), (''c3'', ''same\<newline>'')],
      dirs = {''docs''},
      stdin = [],
      stdout = []\<rparr>"

definition example_job :: job where
  "example_job =
     \<lparr>counting = False, insertNotices = True, notices = ''notices.txt'',
      originals = [''docs'', ''run.py''], top = ''.'', verbose = False, yes = True\<rparr>"


section \<open>Lines of a text\<close>

lemma concat_readlines: "concat (readlines s) = s"
  by (induction s) (auto split: list.splits)

lemma readline_append: "fst (readline s) @ snd (readline s) = s"
  by (induction s) (auto split: prod.splits)

lemma readlines_eq_Nil: "readlines s = [] \<longleftrightarrow> s = []"
  by (cases s) (auto split: list.splits)

lemma readlines_readline:
  "s \<noteq> [] \<Longrightarrow> readlines s = fst (readline s) # readlines (snd (readline s))"
proof (induction s)
  case Nil
  then show ?case by simp
next
  case (Cons c s)
  show ?case
  proof (cases "s = []")
    case True
    then show ?thesis by simp
  next
    case False
    with Cons.IH show ?thesis by (auto split: prod.splits)
  qed
qed

lemma readlines_append_line:
  "CHR 0x0A \<notin> set a \<Longrightarrow> readlines (a @ CHR 0x0A # b) = (a @ [CHR 0x0A]) # readlines b"
  by (induction a) auto

lemma readlines_append:
  "a = [] \<or> last a = CHR 0x0A \<Longrightarrow> readlines (a @ b) = readlines a @ readlines b"
proof (induction a)
  case Nil
  then show ?case by simp
next
  case (Cons c a)
  show ?case
  proof (cases "a = []")
    case True
    with Cons.prems show ?thesis by simp
  next
    case False
    with Cons.prems have "last a = CHR 0x0A" by simp
    with Cons.IH have "readlines (a @ b) = readlines a @ readlines b" by simp
    moreover from False have "readlines a \<noteq> []" by (simp add: readlines_eq_Nil)
    ultimately show ?thesis by (auto split: list.splits)
  qed
qed

lemma readline_Nil: "fst (readline s) = [] \<longleftrightarrow> s = []"
  by (cases s) (auto split: prod.splits)

lemma readline_butlast: "CHR 0x0A \<notin> set (butlast (fst (readline s)))"
  by (induction s) (auto split: prod.splits simp: readline_Nil)

lemma readlines_one_line:
  assumes "l = fst (readline s)" and "l \<noteq> []" and "last l = CHR 0x0A"
  shows "readlines l = [l]"
proof -
  have "l = butlast l @ [CHR 0x0A]" using assms(2,3) by (metis append_butlast_last_id)
  moreover have "CHR 0x0A \<notin> set (butlast l)" using assms(1) readline_butlast by simp
  ultimately show ?thesis using readlines_append_line [of "butlast l" "[]"] by simp
qed

lemma join_lines:
  "join ''\<newline>'' (x # map f ls @ [y]) =
     x @ ''\<newline>'' @ concat (map (\<lambda>l. f l @ ''\<newline>'') ls) @ y"
  by (induction ls arbitrary: x) auto

text \<open>The definitions that evaluating the model on a concrete input unfolds.\<close>

lemmas path_defs = effective_suffix_def path_suffix_def path_stem_def path_name_def

lemmas editor_defs = insert_notices_def custom_editor_def custom_suffixes_map_def
  getattr_editor_def find_leader_def leader_suffixes_map_def edit_text_def leader_editor_def
  xml_editor_def editor_differences_def check_def exempt_suffixes_def strip_def isspace_def

lemmas job_defs = notices_business_def ask_overwrite_def print_def copy_file_def call_def

lemmas example_defs = example_env_def example_world_def example_editor_def example_job_def

lemma init_example: "NoticesEditor_init example_world ''notices.txt'' = Inr example_editor"
  by (simp add: NoticesEditor_init_def example_world_def example_editor_def strip_def isspace_def)


section \<open>The glob matcher: errors and their order\<close>

lemma glob_each_append:
  "\<forall>q\<in>set pre. 2 \<le> length (glob E t q) \<Longrightarrow>
   glob_each E t (pre @ rest) = map Yield (concat (map (glob E t) pre)) @ glob_each E t rest"
  by (induction pre) (auto simp: Let_def)

lemma glob_each_all:
  "\<forall>q\<in>set ps. 2 \<le> length (glob E t q) \<Longrightarrow>
   glob_each E t ps = map Yield (concat (map (glob E t) ps))"
  using glob_each_append [of ps E t "[]"] by simp

text \<open>
  Claim C3.  A pattern is resolved when every pattern before it matched two files or
  more.  If it matches no file, the generator raises the ValueError whose message names
  the pattern; if it matches exactly one file, it raises the ValueError whose message
  names the pattern and that file; if it matches two files or more, all its matches are
  yielded, no error is raised for it and the generator goes on with the next pattern;
  so when it and the patterns after it all match two files or more, no error is raised
  at all and every match of every pattern is yielded, in order.
\<close>

theorem glob_each_errors:
  assumes "\<forall>q\<in>set pre. 2 \<le> length (glob E t q)"
  shows "(glob E t p = [] \<longrightarrow>
            glob_each E t (pre @ p # post) =
              map Yield (concat (map (glob E t) pre)) @
              [Raise (ValueError (''Failed, no match for \"'' @ p @ ''\".''))]) \<and>
         (\<forall>m. glob E t p = [m] \<longrightarrow>
            glob_each E t (pre @ p # post) =
              map Yield (concat (map (glob E t) pre)) @
              [Yield m,
               Raise (ValueError (''Failed, only one match for \"'' @ p @ ''\": '' @ m @ ''.''))]) \<and>
         (2 \<le> length (glob E t p) \<longrightarrow>
            glob_each E t (pre @ p # post) =
              map Yield (concat (map (glob E t) pre)) @ map Yield (glob E t p) @
              glob_each E t post) \<and>
         ((\<forall>q\<in>set (p # post). 2 \<le> length (glob E t q)) \<longrightarrow>
            glob_each E t (pre @ p # post) =
              map Yield (concat (map (glob E t) (pre @ p # post))))"
proof (intro conjI allI impI)
  assume "glob E t p = []"
  then show "glob_each E t (pre @ p # post) =
      map Yield (concat (map (glob E t) pre)) @
      [Raise (ValueError (''Failed, no match for \"'' @ p @ ''\".''))]"
    using glob_each_append [OF assms, of "p # post"] by simp
next
  fix m assume "glob E t p = [m]"
  then show "glob_each E t (pre @ p # post) =
      map Yield (concat (map (glob E t) pre)) @
      [Yield m, Raise (ValueError (''Failed, only one match for \"'' @ p @ ''\": '' @ m @ ''.''))]"
    using glob_each_append [OF assms, of "p # post"] by simp
next
  assume "2 \<le> length (glob E t p)"
  then show "glob_each E t (pre @ p # post) =
      map Yield (concat (map (glob E t) pre)) @ map Yield (glob E t p) @ glob_each E t post"
    using glob_each_append [OF assms, of "p # post"] by (auto simp: Let_def)
next
  assume "\<forall>q\<in>set (p # post). 2 \<le> length (glob E t q)"
  with assms have "\<forall>q\<in>set (pre @ p # post). 2 \<le> length (glob E t q)" by auto
  then show "glob_each E t (pre @ p # post) = map Yield (concat (map (glob E t) (pre @ p # post)))"
    by (rule glob_each_all)
qed

theorem glob_each_errors_witness:
  "2 \<le> length (glob example_env ''.'' ''a*'') \<and>
   glob example_env ''.'' ''z*'' = [] \<and>
   glob example_env ''.'' ''b*'' = [''b1''] \<and>
   2 \<le> length (glob example_env ''.'' ''c*'') \<and>
   glob_each example_env ''.'' [''a*'', ''z*'', ''c*''] =
     [Yield ''a1'', Yield ''a2'', Raise (ValueError ''Failed, no match for \"z*\".'')] \<and>
   glob_each example_env ''.'' [''a*'', ''b*'', ''c*''] =
     [Yield ''a1'', Yield ''a2'', Yield ''b1'',
      Raise (ValueError ''Failed, only one match for \"b*\": b1.'')] \<and>
   glob_each example_env ''.'' [''a*'', ''c*'', ''a*''] =
     [Yield ''a1'', Yield ''a2'', Yield ''c1'', Yield ''c2'', Yield ''c3'',
      Yield ''a1'', Yield ''a2'']"
  using glob_each_errors [of "[''a*'']" example_env "''.''" "''z*''" "[''c*'']"]
    glob_each_errors [of "[''a*'']" example_env "''.''" "''b*''" "[''c*'']"]
    glob_each_errors [of "[''a*'']" example_env "''.''" "''c*''" "[''a*'']"]
  by (simp add: example_env_def)

text \<open>
  Claim C10.  The matches of a pattern are yielded as they are found, and the error is
  decided after them: for a resolved pattern with fewer than two matches, the consumer
  observes every match of the patterns before it, then every match of the failing
  pattern (its single match, when there is one), and only then the ValueError.
\<close>

theorem glob_each_yields_before_error:
  assumes "\<forall>q\<in>set pre. 2 \<le> length (glob E t q)" and "length (glob E t p) < 2"
  shows "\<exists>msg. glob_each E t (pre @ p # post) =
           map Yield (concat (map (glob E t) pre)) @ map Yield (glob E t p) @
           [Raise (ValueError msg)]"
  using glob_each_append [OF assms(1), of "p # post"] assms(2)
  by (cases "glob E t p" rule: list.exhaust) (auto simp: Let_def)

theorem glob_each_yields_before_error_witness:
  "2 \<le> length (glob example_env ''.'' ''c*'') \<and>
   length (glob example_env ''.'' ''b*'') < 2 \<and>
   (\<exists>msg. glob_each example_env ''.'' ([''c*''] @ ''b*'' # [''a*'']) =
      [Yield ''c1'', Yield ''c2'', Yield ''c3''] @ [Yield ''b1''] @ [Raise (ValueError msg)])"
  using glob_each_yields_before_error [of "[''c*'']" example_env "''.''" "''b*''" "[''a*'']"]
  by (simp add: example_env_def)


section \<open>The checker\<close>

text \<open>
  Claim C9.  On an empty file whose suffix is not exempt, \<^verbatim>\<open>check\<close> returns not-OK with
  the count 0, whatever the notice lines are.
\<close>

theorem check_empty_file:
  "effective_suffix p \<notin> set exempt_suffixes \<Longrightarrow> files W p = Some [] \<Longrightarrow>
   check W N p = Inr (False, Some 0)"
  by (simp add: check_def)

theorem check_empty_file_witness:
  "effective_suffix ''empty.py'' \<notin> set exempt_suffixes \<and>
   files example_world ''empty.py'' = Some [] \<and>
   noticesLines example_editor \<noteq> [] \<and>
   check example_world example_editor ''empty.py'' = Inr (False, Some 0)"
proof -
  have s: "effective_suffix ''empty.py'' \<notin> set exempt_suffixes"
    by (simp add: effective_suffix_def path_suffix_def path_name_def exempt_suffixes_def)
  have f: "files example_world ''empty.py'' = Some []"
    by (simp add: example_world_def)
  have n: "noticesLines example_editor \<noteq> []"
    by (simp add: example_editor_def)
  from s f n check_empty_file [OF s f, of example_editor] show ?thesis by simp
qed


section \<open>The plain inserter\<close>

lemma concat_enumerate_Suc:
  "concat (map (\<lambda>(index, line). (if index = (0::nat) \<and> P line then b else []) @ line)
               (enumerate (Suc n) ls)) = concat ls"
  by (induction ls arbitrary: n) auto

text \<open>The second loop of the plain inserter: the original is copied after the separator.\<close>

lemma leader_editor_copy:
  "concat (map (\<lambda>(index, line).
                  (if index = (0::nat) \<and> strip line \<noteq> [] then ''\<newline>'' else []) @ line)
               (enumerate 0 (readlines original))) =
     (case readlines original of
        [] \<Rightarrow> []
      | first # rest \<Rightarrow> if strip first = [] then [] else ''\<newline>'') @
     original"
proof (cases "readlines original")
  case Nil
  then show ?thesis by (simp add: readlines_eq_Nil)
next
  case (Cons first rest)
  have "concat (first # rest) = original"
    using concat_readlines [of original] Cons by simp
  then show ?thesis
    using concat_enumerate_Suc [of "\<lambda>l. strip l \<noteq> []" "''\<newline>''" 0 rest]
    by (simp add: Cons)
qed

text \<open>
  Claim C6.  The text that the plain inserter writes is: every notice line, each after
  the comment leader and a space and ended by a newline; then one empty line when the
  original has a first line and that line is not blank, and nothing when the first line
  is blank (or the original is empty); then the original text, unchanged.
\<close>

theorem leader_editor_layout:
  "leader_editor lead ns original =
     concat (map (\<lambda>line. lead @ '' '' @ line @ ''\<newline>'') ns) @
     (case readlines original of
        [] \<Rightarrow> []
      | first # rest \<Rightarrow> if strip first = [] then [] else ''\<newline>'') @
     original"
proof -
  have "leader_editor lead ns original =
      concat (map (\<lambda>line. lead @ '' '' @ line @ ''\<newline>'') ns) @
      concat (map (\<lambda>(index, line).
                     (if index = (0::nat) \<and> strip line \<noteq> [] then ''\<newline>'' else []) @ line)
                  (enumerate 0 (readlines original)))"
    by (simp add: leader_editor_def)
  then show ?thesis
    by (simp only: leader_editor_copy)
qed

theorem leader_editor_layout_witness:
  "leader_editor ''#'' [''Copyright 2020'', ''BSD-2-Clause''] ''import sys\<newline>'' =
     ''# Copyright 2020\<newline># BSD-2-Clause\<newline>\<newline>import sys\<newline>'' \<and>
   leader_editor ''//'' [''Copyright 2020'', ''BSD-2-Clause''] '' \<newline>class A {}\<newline>'' =
     ''// Copyright 2020\<newline>// BSD-2-Clause\<newline> \<newline>class A {}\<newline>''"
  using leader_editor_layout [of "''#''" "[''Copyright 2020'', ''BSD-2-Clause'']" "''import sys\<newline>''"]
    leader_editor_layout [of "''//''" "[''Copyright 2020'', ''BSD-2-Clause'']"
      "'' \<newline>class A {}\<newline>''"]
  by (simp add: strip_def isspace_def)


section \<open>Suffixes without leader or editor\<close>

lemma find_leader_None:
  "sfx \<notin> set (concat (map snd leader_suffixes_map)) \<Longrightarrow> find_leader sfx = None"
  by (simp add: find_leader_def leader_suffixes_map_def)

lemma custom_editor_None:
  "sfx \<notin> set (map fst custom_suffixes_map) \<Longrightarrow> custom_editor sfx = Inr None"
  by (simp add: custom_editor_def custom_suffixes_map_def)

text \<open>
  Claim C7, as the spec states it, fails on the kind of the error.  The suffix of
  \<^verbatim>\<open>README.md\<close> has no leader and no custom editor, and \<^verbatim>\<open>insert\<close> has no check of the
  suffix: the temporary file is created first, and the exception is the
  UnboundLocalError of reading the local \<^verbatim>\<open>commentLead\<close>, which is not the ValueError
  that this program raises for an error of the configuration.
\<close>

theorem insert_unknown_suffix_counterexample:
  "effective_suffix ''README.md'' \<notin> set (concat (map snd leader_suffixes_map)) \<and>
   effective_suffix ''README.md'' \<notin> set (map fst custom_suffixes_map) \<and>
   fst (insert_notices example_env example_editor ''README.md'' example_world) =
     Inl (UnboundLocalError ''commentLead'') \<and>
   (\<forall>msg. fst (insert_notices example_env example_editor ''README.md'' example_world) \<noteq>
      Inl (ValueError msg)) \<and>
   files example_world ''/tmp/README_tmp.md'' = None \<and>
   files (snd (insert_notices example_env example_editor ''README.md'' example_world))
       ''/tmp/README_tmp.md'' = Some []"
  by (simp add: path_defs editor_defs example_defs Let_def)

text \<open>
  Claim C7, amended.  When the effective suffix of the file is in no list of the leader
  table and is no key of the table of custom editors, \<^verbatim>\<open>insert\<close> always raises an
  exception and returns no edited file: nothing is skipped silently and no leader is
  assumed.  The exception is never a ValueError.  For a readable file it is the
  UnboundLocalError of the name \<^verbatim>\<open>commentLead\<close>, raised after the empty temporary file
  was created, which is the only change made.
\<close>

theorem insert_unknown_suffix:
  assumes "effective_suffix p \<notin> set (concat (map snd leader_suffixes_map))"
    and "effective_suffix p \<notin> set (map fst custom_suffixes_map)"
  shows "(\<exists>e. fst (insert_notices E N p W) = Inl e) \<and>
         (\<forall>msg. fst (insert_notices E N p W) \<noteq> Inl (ValueError msg)) \<and>
         (files W p \<noteq> None \<longrightarrow>
            insert_notices E N p W =
              (Inl (UnboundLocalError ''commentLead''),
               W\<lparr>files := (files W)(mkstemp E (path_stem p @ ''_'') (path_suffix p) \<mapsto> [])\<rparr>))"
  using find_leader_None [OF assms(1)] custom_editor_None [OF assms(2)]
  by (auto simp: insert_notices_def Let_def edit_text_def split: option.splits)

theorem insert_unknown_suffix_witness:
  "effective_suffix ''notes.txt'' \<notin> set (concat (map snd leader_suffixes_map)) \<and>
   effective_suffix ''notes.txt'' \<notin> set (map fst custom_suffixes_map) \<and>
   files example_world ''notes.txt'' \<noteq> None \<and>
   insert_notices example_env example_editor ''notes.txt'' example_world =
     (Inl (UnboundLocalError ''commentLead''),
      example_world\<lparr>files := (files example_world)(''/tmp/notes_tmp.txt'' \<mapsto> [])\<rparr>)"
proof -
  have s: "effective_suffix ''notes.txt'' = ''.txt''"
    by (simp add: effective_suffix_def path_suffix_def path_name_def)
  have a: "effective_suffix ''notes.txt'' \<notin> set (concat (map snd leader_suffixes_map))"
    by (simp add: s leader_suffixes_map_def)
  have b: "effective_suffix ''notes.txt'' \<notin> set (map fst custom_suffixes_map)"
    by (simp add: s custom_suffixes_map_def)
  have c: "files example_world ''notes.txt'' \<noteq> None"
    by (simp add: example_world_def)
  have t: "mkstemp example_env (path_stem ''notes.txt'' @ ''_'') (path_suffix ''notes.txt'') =
      ''/tmp/notes_tmp.txt''"
    by (simp add: example_env_def path_stem_def path_suffix_def path_name_def)
  from insert_unknown_suffix [OF a b, of example_env example_editor example_world] c
  have "insert_notices example_env example_editor ''notes.txt'' example_world =
      (Inl (UnboundLocalError ''commentLead''),
       example_world\<lparr>files := (files example_world)
         (mkstemp example_env (path_stem ''notes.txt'' @ ''_'') (path_suffix ''notes.txt'') \<mapsto> [])\<rparr>)"
    by blast
  with a b c t show ?thesis by simp
qed


section \<open>The XML inserter\<close>

lemma xml_editor_text:
  "xml_editor xml original =
     (if prefix ''<?xml'' (fst (readline original))
      then fst (readline original) @ xml @ snd (readline original)
      else xml @ original)"
  using readline_append [of original]
  by (auto simp: xml_editor_def concat_readlines split: prod.splits)

lemma noticesXML_init:
  assumes "NoticesEditor_init W0 np = Inr N"
  shows "noticesXML N =
           ''<!--\<newline>'' @ concat (map (\<lambda>l. (''    '' @ l) @ ''\<newline>'') (noticesLines N)) @
           ''-->\<newline>''"
  using assms join_lines [of "''<!--''" "\<lambda>line. ''    '' @ line" _ "''-->\<newline>''"]
  by (auto simp: NoticesEditor_init_def Let_def split: option.splits)

lemma noticesXML_last:
  assumes "NoticesEditor_init W0 np = Inr N"
  shows "noticesXML N \<noteq> [] \<and> last (noticesXML N) = CHR 0x0A"
  using noticesXML_init [OF assms] by simp

text \<open>
  Claim C5, as the spec states it, fails where the first line of the file is not ended
  by a newline.  The file below is an XML declaration and a root element on one line,
  with no final newline: the first line begins with the declaration, yet the comment is
  appended to that line, so the lines of the edited file are not the first line, the
  lines of the comment and the lines of the rest.
\<close>

theorem xml_editor_second_line_counterexample:
  "prefix ''<?xml'' (fst (readline ''<?xml version=\"1.0\"?><a/>'')) \<and>
   readlines (xml_editor (noticesXML example_editor) ''<?xml version=\"1.0\"?><a/>'') =
     [''<?xml version=\"1.0\"?><a/><!--\<newline>'', ''    Copyright 2020\<newline>'',
      ''    BSD-2-Clause\<newline>'', ''-->\<newline>''] \<and>
   readlines (xml_editor (noticesXML example_editor) ''<?xml version=\"1.0\"?><a/>'') \<noteq>
     fst (readline ''<?xml version=\"1.0\"?><a/>'') # readlines (noticesXML example_editor) @
     readlines (snd (readline ''<?xml version=\"1.0\"?><a/>''))"
  by (simp add: xml_editor_def example_editor_def)

text \<open>
  Claim C5, amended.  For a notices block as the editor loads it: when the first line of
  the file begins with the XML declaration, the edited text is that line, then the
  notices comment, then the text beyond the first line, unchanged, and the comment
  starts the second line whenever the first line ends with a newline; when the first
  line does not begin with the declaration, the edited text is the notices comment
  followed by the original text unchanged, so that the comment is the very first line.
\<close>

theorem xml_editor_layout:
  assumes "NoticesEditor_init W0 np = Inr N"
    and "readline original = (line, rest)"
  shows "(prefix ''<?xml'' line \<longrightarrow>
            xml_editor (noticesXML N) original = line @ noticesXML N @ rest \<and>
            (last line = CHR 0x0A \<longrightarrow>
               readlines (xml_editor (noticesXML N) original) =
                 line # readlines (noticesXML N) @ readlines rest)) \<and>
         (\<not> prefix ''<?xml'' line \<longrightarrow>
            xml_editor (noticesXML N) original = noticesXML N @ original \<and>
            readlines (xml_editor (noticesXML N) original) =
              readlines (noticesXML N) @ readlines original)"
proof (intro conjI impI)
  assume p: "prefix ''<?xml'' line"
  then show t: "xml_editor (noticesXML N) original = line @ noticesXML N @ rest"
    using assms(2) by (simp add: xml_editor_text)
  assume nl: "last line = CHR 0x0A"
  from p have ne: "line \<noteq> []" by auto
  have "readlines (line @ noticesXML N @ rest) = readlines line @ readlines (noticesXML N @ rest)"
    using nl by (intro readlines_append) simp
  moreover have "readlines (noticesXML N @ rest) = readlines (noticesXML N) @ readlines rest"
    using noticesXML_last [OF assms(1)] by (intro readlines_append) simp
  moreover have "readlines line = [line]"
    using readlines_one_line [of line original] assms(2) ne nl by simp
  ultimately show "readlines (xml_editor (noticesXML N) original) =
      line # readlines (noticesXML N) @ readlines rest"
    using t by simp
next
  assume p: "\<not> prefix ''<?xml'' line"
  then show t: "xml_editor (noticesXML N) original = noticesXML N @ original"
    using assms(2) by (simp add: xml_editor_text)
  show "readlines (xml_editor (noticesXML N) original) =
      readlines (noticesXML N) @ readlines original"
    unfolding t using noticesXML_last [OF assms(1)] by (intro readlines_append) simp
qed

theorem xml_editor_layout_witness:
  "NoticesEditor_init example_world ''notices.txt'' = Inr example_editor \<and>
   readline ''<?xml version=\"1.0\"?>\<newline><a/>\<newline>'' =
     (''<?xml version=\"1.0\"?>\<newline>'', ''<a/>\<newline>'') \<and>
   prefix ''<?xml'' ''<?xml version=\"1.0\"?>\<newline>'' \<and>
   last ''<?xml version=\"1.0\"?>\<newline>'' = CHR 0x0A \<and>
   readlines (xml_editor (noticesXML example_editor) ''<?xml version=\"1.0\"?>\<newline><a/>\<newline>'') =
     [''<?xml version=\"1.0\"?>\<newline>'', ''<!--\<newline>'', ''    Copyright 2020\<newline>'',
      ''    BSD-2-Clause\<newline>'', ''-->\<newline>'', ''<a/>\<newline>''] \<and>
   readline ''<a/>\<newline>'' = (''<a/>\<newline>'', []) \<and>
   \<not> prefix ''<?xml'' ''<a/>\<newline>'' \<and>
   readlines (xml_editor (noticesXML example_editor) ''<a/>\<newline>'') =
     [''<!--\<newline>'', ''    Copyright 2020\<newline>'', ''    BSD-2-Clause\<newline>'', ''-->\<newline>'',
      ''<a/>\<newline>'']"
proof -
  have r1: "readline ''<?xml version=\"1.0\"?>\<newline><a/>\<newline>'' =
      (''<?xml version=\"1.0\"?>\<newline>'', ''<a/>\<newline>'')"
    by simp
  have r2: "readline ''<a/>\<newline>'' = (''<a/>\<newline>'', [])"
    by simp
  have x: "readlines (noticesXML example_editor) =
      [''<!--\<newline>'', ''    Copyright 2020\<newline>'', ''    BSD-2-Clause\<newline>'', ''-->\<newline>'']"
    by (simp add: example_editor_def)
  have p1: "prefix ''<?xml'' ''<?xml version=\"1.0\"?>\<newline>''"
    by simp
  have l1: "last ''<?xml version=\"1.0\"?>\<newline>'' = CHR 0x0A"
    by simp
  have p2: "\<not> prefix ''<?xml'' ''<a/>\<newline>''"
    by simp
  have a: "readlines (xml_editor (noticesXML example_editor)
             ''<?xml version=\"1.0\"?>\<newline><a/>\<newline>'') =
      ''<?xml version=\"1.0\"?>\<newline>'' # readlines (noticesXML example_editor) @
      readlines ''<a/>\<newline>''"
    using xml_editor_layout [OF init_example r1] p1 l1 by blast
  have b: "readlines (xml_editor (noticesXML example_editor) ''<a/>\<newline>'') =
      readlines (noticesXML example_editor) @ readlines ''<a/>\<newline>''"
    using xml_editor_layout [OF init_example r2] p2 by blast
  show ?thesis
    unfolding a b x by (simp add: init_example)
qed


section \<open>Identical files\<close>








section \<open>The checker on inserted notices\<close>

text \<open>
  The loop of \<^verbatim>\<open>check\<close> matches greedily.  When the lines of a file hold, after any
  lines, one line around each notice line, in order, and at least one more line after
  them, the loop returns OK with the number of notice lines.
\<close>

lemma str_find_nonneg: "- 1 \<le> str_find s sub"
  by (induction s) (auto simp: Let_def)

lemma str_find_infix: "0 \<le> str_find (a @ sub @ b) sub"
proof (induction a)
  case Nil
  have "prefix sub (sub @ b)" by simp
  then show ?case by (cases "sub @ b") (simp_all del: prefix_code)
next
  case (Cons x a)
  then show ?case by (auto simp: Let_def)
qed

lemma check_lines_found:
  assumes sub: "\<forall>n\<in>set ns. 0 \<le> str_find (f n) n"
    and "k \<le> k'" and "k' \<le> length ns"
  shows "check_lines ns k' (map f (drop k ns) @ x # after) = (True, length ns)"
  using assms(2,3)
proof (induction "length ns - k" arbitrary: k k')
  case 0
  then have "k' = length ns" "drop k ns = []" by auto
  then show ?case by simp
next
  case (Suc d)
  then have k: "k < length ns" by simp
  then have dr: "drop k ns = ns ! k # drop (Suc k) ns" by (simp add: Cons_nth_drop_Suc)
  have d': "d = length ns - Suc k" using Suc.hyps(2) by simp
  show ?case
  proof (cases "k' < length ns")
    case False
    with Suc.prems show ?thesis by (simp add: dr)
  next
    case True
    show ?thesis
    proof (cases "0 \<le> str_find (f (ns ! k)) (ns ! k')")
      case m: True
      have "check_lines ns (Suc k') (map f (drop (Suc k) ns) @ x # after) = (True, length ns)"
        using Suc.hyps(1) [OF d', of "Suc k'"] Suc.prems True by simp
      with True m show ?thesis by (simp add: dr)
    next
      case m: False
      have "0 \<le> str_find (f (ns ! k)) (ns ! k)" using sub k by simp
      with m have "k \<noteq> k'" by auto
      with Suc.prems have "Suc k \<le> k'" by simp
      then have "check_lines ns k' (map f (drop (Suc k) ns) @ x # after) = (True, length ns)"
        using Suc.hyps(1) [OF d', of k'] Suc.prems by simp
      with True m show ?thesis by (simp add: dr)
    qed
  qed
qed

lemma check_lines_found_after:
  assumes sub: "\<forall>n\<in>set ns. 0 \<le> str_find (f n) n" and "k \<le> length ns"
  shows "check_lines ns k (pre @ map f ns @ x # after) = (True, length ns)"
  using assms(2)
proof (induction pre arbitrary: k)
  case Nil
  then show ?case using check_lines_found [OF sub, of 0 k x after] by simp
next
  case (Cons l pre)
  then show ?case by (cases "k < length ns") auto
qed

text \<open>
  The notice lines that the editor loads hold no newline, and neither do the leaders.
\<close>

lemma readlines_butlast: "l \<in> set (readlines s) \<Longrightarrow> CHR 0x0A \<notin> set (butlast l)"
  by (induction s arbitrary: l) (auto split: if_splits list.splits)

lemma butlast_dropWhile_subset: "set (butlast (dropWhile P l)) \<subseteq> set (butlast l)"
proof (cases "dropWhile P l = []")
  case True
  show ?thesis unfolding True by simp
next
  case False
  then have "butlast (takeWhile P l @ dropWhile P l) = takeWhile P l @ butlast (dropWhile P l)"
    by (simp only: butlast_append if_False)
  then have "butlast l = takeWhile P l @ butlast (dropWhile P l)" by simp
  then have "set (butlast l) = set (takeWhile P l) \<union> set (butlast (dropWhile P l))"
    by (simp only: set_append)
  then show ?thesis by blast
qed

lemma dropWhile_rev_no_newline:
  assumes "CHR 0x0A \<notin> set (butlast m)"
  shows "CHR 0x0A \<notin> set (dropWhile isspace (rev m))"
proof (cases m rule: rev_cases)
  case Nil
  then show ?thesis by simp
next
  case (snoc b x)
  show ?thesis
  proof (cases "isspace x")
    case True
    have "set (dropWhile isspace (rev b)) \<subseteq> set (rev b)"
      by (auto dest: set_dropWhileD)
    with assms snoc True show ?thesis by auto
  next
    case False
    then have "x \<noteq> CHR 0x0A" by (auto simp: isspace_def)
    with False snoc assms show ?thesis by simp
  qed
qed

lemma strip_no_newline:
  assumes "CHR 0x0A \<notin> set (butlast l)"
  shows "CHR 0x0A \<notin> set (strip l)"
proof -
  have "CHR 0x0A \<notin> set (butlast (dropWhile isspace l))"
    using assms butlast_dropWhile_subset [of isspace l] by blast
  from dropWhile_rev_no_newline [OF this] show ?thesis
    by (simp add: strip_def)
qed

lemma init_no_newline:
  assumes "NoticesEditor_init W0 np = Inr N"
  shows "\<forall>n\<in>set (noticesLines N). CHR 0x0A \<notin> set n"
proof -
  from assms obtain c where "noticesLines N = map strip (readlines c)"
    by (auto simp: NoticesEditor_init_def Let_def split: option.splits)
  then show ?thesis
    using readlines_butlast strip_no_newline by auto
qed

lemma find_leader_cases: "find_leader sfx = Some lead \<Longrightarrow> lead = ''#'' \<or> lead = ''//''"
proof -
  assume a: "find_leader sfx = Some lead"
  obtain l1 l2 where m: "leader_suffixes_map = [(''#'', l1), (''//'', l2)]"
    by (simp add: leader_suffixes_map_def)
  from a show ?thesis
    unfolding find_leader_def m by (cases "sfx \<in> set l1"; cases "sfx \<in> set l2") auto
qed

lemma find_leader_no_newline: "find_leader sfx = Some lead \<Longrightarrow> CHR 0x0A \<notin> set lead"
  using find_leader_cases [of sfx lead] by auto

text \<open>The lines of the edited text, for both editors.\<close>

lemma readlines_concat_lines:
  "\<forall>l\<in>set ls. CHR 0x0A \<notin> set (f l) \<Longrightarrow>
   readlines (concat (map (\<lambda>l. f l @ ''\<newline>'') ls) @ b) =
     map (\<lambda>l. f l @ ''\<newline>'') ls @ readlines b"
  by (induction ls) (auto simp: readlines_append_line)

lemma leader_editor_lines:
  assumes "\<forall>n\<in>set ns. CHR 0x0A \<notin> set n" and "CHR 0x0A \<notin> set lead" and "original \<noteq> []"
  shows "\<exists>x after. readlines (leader_editor lead ns original) =
           map (\<lambda>n. (lead @ '' '' @ n) @ ''\<newline>'') ns @ x # after"
proof -
  let ?sep = "case readlines original of [] \<Rightarrow> []
              | first # rest \<Rightarrow> if strip first = [] then [] else ''\<newline>''"
  have "leader_editor lead ns original =
      concat (map (\<lambda>n. (lead @ '' '' @ n) @ ''\<newline>'') ns) @ ?sep @ original"
    using leader_editor_copy [of original] by (simp add: leader_editor_def)
  moreover have "\<forall>n\<in>set ns. CHR 0x0A \<notin> set (lead @ '' '' @ n)"
    using assms(1,2) by simp
  ultimately have "readlines (leader_editor lead ns original) =
      map (\<lambda>n. (lead @ '' '' @ n) @ ''\<newline>'') ns @ readlines (?sep @ original)"
    using readlines_concat_lines [of ns "\<lambda>n. lead @ '' '' @ n" "?sep @ original"] by simp
  moreover have "readlines (?sep @ original) \<noteq> []"
    using assms(3) by (simp add: readlines_eq_Nil)
  ultimately show ?thesis by (metis list.exhaust)
qed

lemma xml_editor_lines:
  assumes "NoticesEditor_init W0 np = Inr N"
  shows "\<exists>pre after. readlines (xml_editor (noticesXML N) original) =
           pre @ map (\<lambda>n. (''    '' @ n) @ ''\<newline>'') (noticesLines N) @ ''-->\<newline>'' # after"
proof -
  let ?ns = "noticesLines N"
  let ?body = "concat (map (\<lambda>n. (''    '' @ n) @ ''\<newline>'') ?ns) @ ''-->\<newline>''"
  have nn: "\<forall>n\<in>set ?ns. CHR 0x0A \<notin> set (''    '' @ n)"
    using init_no_newline [OF assms] by simp
  have x: "noticesXML N = ''<!--\<newline>'' @ ?body"
    using noticesXML_init [OF assms] by simp
  have body: "readlines (?body @ b) =
      map (\<lambda>n. (''    '' @ n) @ ''\<newline>'') ?ns @ ''-->\<newline>'' # readlines b" for b
    using readlines_concat_lines [OF nn, of "''-->\<newline>'' @ b"]
      readlines_append_line [of "''-->''" b] by simp
  obtain line rest where r: "readline original = (line, rest)" by fastforce
  show ?thesis
  proof (cases "prefix ''<?xml'' line")
    case False
    then have "xml_editor (noticesXML N) original = ''<!--\<newline>'' @ ?body @ original"
      using r x by (simp add: xml_editor_text)
    then have "readlines (xml_editor (noticesXML N) original) =
        [''<!--\<newline>''] @ map (\<lambda>n. (''    '' @ n) @ ''\<newline>'') ?ns @ ''-->\<newline>'' # readlines original"
      using body [of original] readlines_append_line [of "''<!--''" "?body @ original"] by simp
    then show ?thesis by blast
  next
    case True
    then have t: "xml_editor (noticesXML N) original = line @ ''<!--\<newline>'' @ ?body @ rest"
      using r x by (simp add: xml_editor_text)
    from True have ne: "line \<noteq> []" by auto
    have bl: "CHR 0x0A \<notin> set (butlast line)"
      using readline_butlast [of original] r by simp
    show ?thesis
    proof (cases "last line = CHR 0x0A")
      case True
      have "readlines (line @ ''<!--\<newline>'' @ ?body @ rest) =
          readlines line @ readlines (''<!--\<newline>'' @ ?body @ rest)"
        using True by (intro readlines_append) simp
      moreover have "readlines line = [line]"
        using readlines_one_line [of line original] r ne True by simp
      moreover have "readlines (''<!--\<newline>'' @ ?body @ rest) =
          ''<!--\<newline>'' # map (\<lambda>n. (''    '' @ n) @ ''\<newline>'') ?ns @ ''-->\<newline>'' # readlines rest"
        using body [of rest] readlines_append_line [of "''<!--''" "?body @ rest"] by simp
      ultimately have "readlines (xml_editor (noticesXML N) original) =
          [line, ''<!--\<newline>''] @ map (\<lambda>n. (''    '' @ n) @ ''\<newline>'') ?ns @
          ''-->\<newline>'' # readlines rest"
        using t by simp
      then show ?thesis by blast
    next
      case False
      with bl ne have "CHR 0x0A \<notin> set line"
        by (metis append_butlast_last_id rotate1.simps(2) set_ConsD set_rotate1)
      then have "CHR 0x0A \<notin> set (line @ ''<!--'')" by simp
      then have "readlines ((line @ ''<!--'') @ CHR 0x0A # ?body @ rest) =
          ((line @ ''<!--'') @ [CHR 0x0A]) # readlines (?body @ rest)"
        by (rule readlines_append_line)
      then have "readlines (xml_editor (noticesXML N) original) =
          [line @ ''<!--\<newline>''] @ map (\<lambda>n. (''    '' @ n) @ ''\<newline>'') ?ns @
          ''-->\<newline>'' # readlines rest"
        using t body [of rest] by simp
      then show ?thesis by blast
    qed
  qed
qed

text \<open>
  The round trip of \<^verbatim>\<open>insert\<close> and \<^verbatim>\<open>check\<close> holds for every file edited by the XML
  editor, and for every file edited by the plain inserter that is not empty: the edited
  text then has a line after the last notice line.
\<close>

lemma custom_editor_cases:
  "custom_editor sfx = Inr (Some ed) \<Longrightarrow> ed = (\<lambda>N. xml_editor (noticesXML N))"
  by (auto simp: custom_editor_def getattr_editor_def split: option.splits sum.splits if_splits)

lemma insert_check_roundtrip:
  assumes init: "NoticesEditor_init W0 np = Inr N"
    and ce: "custom_editor sfx = Inr customEditor"
    and ed: "edit_text N customEditor (find_leader sfx) original = Inr edited"
    and ne: "customEditor \<noteq> None \<or> original \<noteq> []"
  shows "check_lines (noticesLines N) 0 (readlines edited) = (True, length (noticesLines N))"
proof (cases customEditor)
  case None
  with ed obtain lead where l: "find_leader sfx = Some lead"
    and e: "edited = leader_editor lead (noticesLines N) original"
    by (auto simp: edit_text_def split: option.splits)
  from None ne have "original \<noteq> []" by simp
  from leader_editor_lines [OF init_no_newline [OF init] find_leader_no_newline [OF l] this]
  obtain x after where "readlines edited =
      map (\<lambda>n. (lead @ '' '' @ n) @ ''\<newline>'') (noticesLines N) @ x # after"
    using e by blast
  moreover have "\<forall>n\<in>set (noticesLines N). 0 \<le> str_find ((lead @ '' '' @ n) @ ''\<newline>'') n"
    using str_find_infix [of "lead @ '' ''" _ "''\<newline>''"] by simp
  ultimately show ?thesis
    using check_lines_found_after [of "noticesLines N" "\<lambda>n. (lead @ '' '' @ n) @ ''\<newline>''" 0 "[]"]
    by simp
next
  case (Some editor)
  with ce have "editor = (\<lambda>N. xml_editor (noticesXML N))"
    by (simp add: custom_editor_cases)
  with ed Some have e: "edited = xml_editor (noticesXML N) original"
    by (simp add: edit_text_def)
  from xml_editor_lines [OF init, of original]
  obtain pre after where "readlines edited =
      pre @ map (\<lambda>n. (''    '' @ n) @ ''\<newline>'') (noticesLines N) @ ''-->\<newline>'' # after"
    using e by blast
  moreover have "\<forall>n\<in>set (noticesLines N). 0 \<le> str_find ((''    '' @ n) @ ''\<newline>'') n"
    using str_find_infix [of "''    ''" _ "''\<newline>''"] by simp
  ultimately show ?thesis
    using check_lines_found_after [of "noticesLines N" "\<lambda>n. (''    '' @ n) @ ''\<newline>''" 0 pre]
    by simp
qed


section \<open>Notices that end the file\<close>

text \<open>
  Claim C2 on the code.  The file \<^verbatim>\<open>run.py\<close> of the example holds the two notice lines in
  order, each inside a line of the file, and nothing after them.  The loop of \<^verbatim>\<open>check\<close>
  finds both lines, but it returns OK only when it reads one more line of the file
  after the last notice line was found; here the file ends, and the result is not-OK
  with the count 2.
\<close>

theorem check_notices_at_end_of_file:
  "files example_world ''run.py'' = Some ''# Copyright 2020\<newline># BSD-2-Clause\<newline>'' \<and>
   noticesLines example_editor = [''Copyright 2020'', ''BSD-2-Clause''] \<and>
   readlines ''# Copyright 2020\<newline># BSD-2-Clause\<newline>'' =
     [''# Copyright 2020\<newline>'', ''# BSD-2-Clause\<newline>''] \<and>
   0 \<le> str_find ''# Copyright 2020\<newline>'' ''Copyright 2020'' \<and>
   0 \<le> str_find ''# BSD-2-Clause\<newline>'' ''BSD-2-Clause'' \<and>
   effective_suffix ''run.py'' \<notin> set exempt_suffixes \<and>
   check example_world example_editor ''run.py'' = Inr (False, Some 2)"
  by (simp add: check_def effective_suffix_def path_suffix_def path_name_def exempt_suffixes_def
      example_world_def example_editor_def)

text \<open>
  Claim C1 on the code.  For the empty file \<^verbatim>\<open>empty.py\<close> the plain inserter writes the
  two notice lines and nothing else, so \<^verbatim>\<open>check\<close> on the edited file reaches the end of
  the file right after the last notice line and returns not-OK.  In a run that
  overwrites the original, the check after the overwrite fails in the same way and the
  RuntimeError of \<^verbatim>\<open>_notices_business\<close> is raised.
\<close>

theorem insert_then_check_empty_original:
  "files example_world ''empty.py'' = Some [] \<and>
   fst (insert_notices example_env example_editor ''empty.py'' example_world) =
     Inr (''/tmp/empty_tmp.py'', [''*** empty.py'', ''--- Edited'']) \<and>
   files (snd (insert_notices example_env example_editor ''empty.py'' example_world))
       ''/tmp/empty_tmp.py'' =
     Some ''# Copyright 2020\<newline># BSD-2-Clause\<newline>'' \<and>
   check (snd (insert_notices example_env example_editor ''empty.py'' example_world))
       example_editor ''/tmp/empty_tmp.py'' =
     Inr (False, Some 2) \<and>
   fst (notices_business example_job example_env example_editor ''empty.py'' example_world) =
     Inl (RuntimeError ''Overwritten file doesn't have notices.'')"
  by (simp add: path_defs editor_defs job_defs example_defs Let_def)


section \<open>Directories in notice mode\<close>

text \<open>
  Claim C8 on the code.  The first original of the example job is a directory.
  \<^verbatim>\<open>_notices_business\<close> returns None for it, and \<^verbatim>\<open>__call__\<close> adds that result to the count
  of edits, which raises TypeError: the run stops at the directory, the original after
  it is not processed and no summary is printed.
\<close>

theorem call_directory_candidate:
  "insertNotices example_job \<and>
   originals example_job = [''docs'', ''run.py''] \<and>
   ''docs'' \<in> dirs example_world \<and>
   fst (notices_business example_job example_env example_editor ''docs'' example_world) =
     Inr None \<and>
   call example_job example_env example_world =
     (Inl (TypeError (''unsupported operand type(s) for +=: '' @ [CHR 0x27] @ ''int'' @
                        [CHR 0x27] @ '' and '' @ [CHR 0x27] @ ''NoneType'' @ [CHR 0x27])),
      example_world)"
proof -
  have d: "''docs'' \<in> dirs example_world"
    by (simp add: example_world_def)
  show ?thesis
    by (simp add: call_def notices_business_def example_job_def init_example d)
qed

end
